theory Spec2Isabelle
  imports Main "HOL-Library.AList"
begin

section \<open>Values, files and exceptions\<close>

text \<open>
  A value that \<open>json.load\<close> returns. Numbers are integers here; in every operation
  below a float behaves as an integer does. An object holds its items in insertion
  order and is read by its first item with a given key.
\<close>

datatype json =
  JNull | JBool bool | JNum int | JStr string | JArr "json list" | JObj "(string \<times> json) list"

text \<open>
  What the source observes of a file that is present. \<open>Inaccessible\<close>: even
  \<open>Path.exists\<close> raises (\<open>PermissionError\<close>, an \<open>OSError\<close>). \<open>Unreadable\<close>: the file
  exists and \<open>open\<close> or \<open>read\<close> raises \<open>OSError\<close>. \<open>Undecodable\<close>: the bytes are not
  text in the encoding, and reading raises \<open>UnicodeDecodeError\<close>. Otherwise the file
  has text, which is blank, or is not JSON, or parses to a value.
\<close>

datatype 'a content = Blank | Malformed | Json 'a

datatype 'a disk_file = Inaccessible | Unreadable | Undecodable | Text "'a content"

text \<open>
  The exceptions that occur. \<open>Exit\<close> is \<open>typer.Exit(code)\<close> and carries the message
  that the source prints immediately before raising it.
\<close>

datatype exn =
  OSError | JSONDecodeError | UnicodeDecodeError | AttributeError | TypeError | KeyError
  | Exit string nat

text \<open>
  A location is a file as the operating system identifies it. Which file the path
  \<open>ENV_BASE_DIR / f"{name}.json"\<close> denotes, and which files
  \<open>ENV_BASE_DIR.glob("*.json")\<close> yields and with which stem, depends on the names
  and on the file system; both are parameters, fixed during a command. Two names
  may denote one file (\<open>dev\<close> and \<open>./dev\<close>), and a name may denote a file that the
  glob does not yield (\<open>sub/dev\<close>).
\<close>

type_synonym location = string

text \<open>
  The file that the argument of \<open>--export-shell\<close> denotes may be the pointer file, a
  record file, or a file of its own.
\<close>

datatype file_ref = Ref_config | Ref_record location | Ref_other string

record layout =
  env_file_path :: "string \<Rightarrow> location"
  glob_stem :: "location \<Rightarrow> string option"
  export_file :: "string \<Rightarrow> file_ref"

text \<open>
  The script that \<open>activate --export-shell\<close> writes, as the operations it encodes: one
  removal rule for each path of the union set, one guarded prepend for each path of the
  activated environment (in the order written), and the exported marker variable.
  \<open>Truncated\<close> is the file left behind when an exception ends the writing.
\<close>

datatype script = Truncated | Script "string set" "json list" string

text \<open>
  The state: the record files that exist, by location, those of the registry directory
  in the order \<open>glob\<close> yields them; the file \<open>CONFIG_FILE\<close> if it exists, which holds a
  JSON string when it parses; the value of \<open>PATH\<close> in \<open>os.environ\<close> (an unset variable
  reads as the empty string, as \<open>os.environ.get("PATH", "")\<close> does); and the script
  files written so far. Writing and unlinking a file are taken to succeed.
\<close>

record state =
  env_files :: "(location \<times> json disk_file) list"
  config_file :: "string disk_file option"
  path_var :: string
  exported :: "(string \<times> script) list"

type_synonym 'a result = "(exn + 'a) \<times> state"

definition quoted :: "string \<Rightarrow> string" where
  "quoted s = CHR 0x27 # s @ [CHR 0x27]"

subsection \<open>Python operations on values\<close>

text \<open>\<open>for x in v\<close>: the elements of a list, the characters of a string, the keys of a dict.\<close>

definition py_iter :: "json \<Rightarrow> exn + json list" where
  "py_iter v =
     (case v of
        JArr xs \<Rightarrow> Inr xs
      | JStr s \<Rightarrow> Inr (map (\<lambda>c. JStr [c]) s)
      | JObj kvs \<Rightarrow> Inr (map (\<lambda>kv. JStr (fst kv)) (AList.clearjunk kvs))
      | _ \<Rightarrow> Inl TypeError)"

text \<open>Lists and dicts cannot be members of a set.\<close>

definition hashable :: "json \<Rightarrow> bool" where
  "hashable v = (case v of JArr xs \<Rightarrow> False | JObj kvs \<Rightarrow> False | _ \<Rightarrow> True)"

text \<open>\<open>bool(v)\<close>\<close>

definition py_truthy :: "json \<Rightarrow> bool" where
  "py_truthy v =
     (case v of
        JNull \<Rightarrow> False
      | JBool b \<Rightarrow> b
      | JNum n \<Rightarrow> n \<noteq> 0
      | JStr s \<Rightarrow> s \<noteq> []
      | JArr xs \<Rightarrow> xs \<noteq> []
      | JObj kvs \<Rightarrow> kvs \<noteq> [])"

fun substring_of :: "string \<Rightarrow> string \<Rightarrow> bool" where
  "substring_of x [] = (x = [])"
| "substring_of x (c # cs) = (take (length x) (c # cs) = x \<or> substring_of x cs)"

text \<open>
  \<open>x in v\<close> for a string \<open>x\<close>: membership in a list (a string equals only a string),
  substring of a string, key of a dict.
\<close>

definition py_in :: "string \<Rightarrow> json \<Rightarrow> exn + bool" where
  "py_in x v =
     (case v of
        JArr xs \<Rightarrow> Inr (JStr x \<in> set xs)
      | JStr s \<Rightarrow> Inr (substring_of x s)
      | JObj kvs \<Rightarrow> Inr (x \<in> fst ` set kvs)
      | _ \<Rightarrow> Inl TypeError)"

text \<open>\<open>v[k]\<close> for a string \<open>k\<close>\<close>

definition py_getitem :: "json \<Rightarrow> string \<Rightarrow> exn + json" where
  "py_getitem v k =
     (case v of
        JObj kvs \<Rightarrow> (case map_of kvs k of None \<Rightarrow> Inl KeyError | Some x \<Rightarrow> Inr x)
      | _ \<Rightarrow> Inl TypeError)"

text \<open>\<open>config.get("paths", [])\<close>: only a dict has \<open>get\<close>.\<close>

definition get_paths :: "json \<Rightarrow> exn + json" where
  "get_paths config =
     (case config of
        JObj kvs \<Rightarrow> Inr (case map_of kvs ''paths'' of None \<Rightarrow> JArr [] | Some v \<Rightarrow> v)
      | _ \<Rightarrow> Inl AttributeError)"

subsection \<open>Library calls\<close>

text \<open>\<open>Path.exists\<close>\<close>

definition path_exists :: "'a disk_file option \<Rightarrow> exn + bool" where
  "path_exists f =
     (case f of None \<Rightarrow> Inr False | Some Inaccessible \<Rightarrow> Inl OSError | Some x \<Rightarrow> Inr True)"

text \<open>\<open>Path.read_text\<close>, and \<open>open\<close> followed by \<open>read\<close>, on a file that is present\<close>

definition read_text :: "'a disk_file \<Rightarrow> exn + 'a content" where
  "read_text f =
     (case f of
        Inaccessible \<Rightarrow> Inl OSError
      | Unreadable \<Rightarrow> Inl OSError
      | Undecodable \<Rightarrow> Inl UnicodeDecodeError
      | Text t \<Rightarrow> Inr t)"

definition json_loads :: "'a content \<Rightarrow> exn + 'a" where
  "json_loads t = (case t of Json v \<Rightarrow> Inr v | _ \<Rightarrow> Inl JSONDecodeError)"

definition json_load :: "'a disk_file \<Rightarrow> exn + 'a" where
  "json_load f = (case read_text f of Inl e \<Rightarrow> Inl e | Inr t \<Rightarrow> json_loads t)"

text \<open>\<open>except (json.JSONDecodeError, OSError)\<close>\<close>

definition caught :: "exn \<Rightarrow> bool" where
  "caught e = (e = JSONDecodeError \<or> e = OSError)"

text \<open>\<open>not text.strip()\<close>\<close>

definition is_blank :: "'a content \<Rightarrow> bool" where
  "is_blank t = (case t of Blank \<Rightarrow> True | _ \<Rightarrow> False)"

definition pathsep :: char where
  "pathsep = CHR '':''"

text \<open>\<open>s.split(sep)\<close> for a one-character separator: never the empty list.\<close>

fun split_aux :: "char \<Rightarrow> string \<Rightarrow> string \<times> string list" where
  "split_aux c [] = ([], [])"
| "split_aux c (x # xs) =
     (case split_aux c xs of (w, ws) \<Rightarrow> if x = c then ([], w # ws) else (x # w, ws))"

definition str_split :: "char \<Rightarrow> string \<Rightarrow> string list" where
  "str_split c s = (case split_aux c s of (w, ws) \<Rightarrow> w # ws)"

fun str_join :: "char \<Rightarrow> string list \<Rightarrow> string" where
  "str_join c [] = []"
| "str_join c [x] = x"
| "str_join c (x # y # ys) = x @ c # str_join c (y # ys)"

text \<open>\<open>sep.join(xs)\<close>: every item must be a string.\<close>

fun strings_of :: "json list \<Rightarrow> string list option" where
  "strings_of [] = Some []"
| "strings_of (JStr s # xs) = (case strings_of xs of None \<Rightarrow> None | Some ss \<Rightarrow> Some (s # ss))"
| "strings_of (x # xs) = None"

definition py_join :: "char \<Rightarrow> json list \<Rightarrow> exn + string" where
  "py_join c xs = (case strings_of xs of None \<Rightarrow> Inl TypeError | Some ss \<Rightarrow> Inr (str_join c ss))"

text \<open>\<open>ENV_BASE_DIR.glob("*.json")\<close>: stem, location and file, in directory order.\<close>

definition glob :: "layout \<Rightarrow> state \<Rightarrow> (string \<times> location \<times> json disk_file) list" where
  "glob L s =
     List.map_filter
       (\<lambda>lf. case glob_stem L (fst lf) of None \<Rightarrow> None | Some stem \<Rightarrow> Some (stem, fst lf, snd lf))
       (env_files s)"

section \<open>Env\<close>

record env =
  env_name :: string
  env_paths :: json

definition file_exists :: "layout \<Rightarrow> state \<Rightarrow> string \<Rightarrow> exn + bool" where
  "file_exists L s name = path_exists (map_of (env_files s) (env_file_path L name))"

text \<open>
  \<open>Env.load\<close>: the value it leaves in \<open>self.env_paths\<close>, which is the empty list
  before. The existence test stands outside the \<open>try\<close>.
\<close>

definition load :: "layout \<Rightarrow> string \<Rightarrow> state \<Rightarrow> exn + json" where
  "load L name s =
     (case map_of (env_files s) (env_file_path L name) of
        None \<Rightarrow> Inr (JArr [])
      | Some f \<Rightarrow>
          (case path_exists (Some f) of
             Inl e \<Rightarrow> Inl e
           | Inr b \<Rightarrow>
               (case json_load f of
                  Inr config \<Rightarrow> get_paths config
                | Inl e \<Rightarrow> if caught e then Inr (JArr []) else Inl e)))"

text \<open>\<open>Env(name)\<close>\<close>

definition Env :: "layout \<Rightarrow> string \<Rightarrow> state \<Rightarrow> exn + env" where
  "Env L name s =
     (case load L name s of
        Inl e \<Rightarrow> Inl e
      | Inr ps \<Rightarrow> Inr \<lparr>env_name = name, env_paths = ps\<rparr>)"

definition save :: "layout \<Rightarrow> env \<Rightarrow> state \<Rightarrow> state" where
  "save L e s =
     s\<lparr>env_files :=
         AList.update (env_file_path L (env_name e))
           (Text (Json (JObj [(''name'', JStr (env_name e)), (''paths'', env_paths e)])))
           (env_files s)\<rparr>"

text \<open>
  \<open>Path(path).resolve()\<close> depends on the file system and the working directory; it
  is a parameter \<open>resolve\<close> of the operations that call it. The methods return the
  flag or the exception, the object after the call and the state after the call.
  Only a list has \<open>append\<close> and \<open>remove\<close>.
\<close>

definition add_path ::
  "layout \<Rightarrow> (string \<Rightarrow> string) \<Rightarrow> string \<Rightarrow> env \<Rightarrow> state \<Rightarrow> (exn + bool) \<times> env \<times> state"
where
  "add_path L resolve path e s =
     (let abs_path = resolve path in
      case py_in abs_path (env_paths e) of
        Inl x \<Rightarrow> (Inl x, e, s)
      | Inr present \<Rightarrow>
          if \<not> present
          then (case env_paths e of
                  JArr xs \<Rightarrow>
                    (let e' = e\<lparr>env_paths := JArr (xs @ [JStr abs_path])\<rparr>
                     in (Inr True, e', save L e' s))
                | _ \<Rightarrow> (Inl AttributeError, e, s))
          else (Inr False, e, s))"


section \<open>The active-environment pointer\<close>

definition get_current_env_name :: "state \<Rightarrow> exn + string" where
  "get_current_env_name s =
     (case config_file s of
        None \<Rightarrow> Inr ''base''
      | Some f \<Rightarrow>
          (case path_exists (Some f) of
             Inl e \<Rightarrow> Inl e
           | Inr b \<Rightarrow>
               (case json_load f of
                  Inr v \<Rightarrow> Inr v
                | Inl e \<Rightarrow> if caught e then Inr ''base'' else Inl e)))"

definition set_current_env :: "string \<Rightarrow> state \<Rightarrow> state" where
  "set_current_env name s = s\<lparr>config_file := Some (Text (Json name))\<rparr>"

section \<open>Commands\<close>

subsection \<open>reset and create\<close>



subsection \<open>list\<close>

text \<open>
  The command prints lines; the model returns them in the order printed, together with
  the exception that ended the command, if any. The lines are: \<open>+ base\<close> with or without
  \<open>(active)\<close>; the warning \<open>+ !!! Error: {env_file} is an invalid env file\<close> for a file;
  \<open>+ {name}\<close> with or without \<open>(active)\<close> for the value under \<open>name\<close>; and a bare stem in
  the names-only listing. A directory that does not exist has no files: the loop over
  the empty list prints what the early \<open>return\<close> prints.
\<close>

datatype line = Line_base bool | Line_invalid location | Line_env json bool | Line_stem string

fun list_loop ::
  "string \<Rightarrow> (string \<times> location \<times> json disk_file) list \<Rightarrow> line list \<Rightarrow> (exn + unit) \<times> line list"
where
  "list_loop current_env [] out = (Inr (), out)"
| "list_loop current_env ((stem, env_file, f) # rest) out =
     (if stem = ''base'' then list_loop current_env rest out
      else (case read_text f of
        Inl e \<Rightarrow>
          if e = OSError then list_loop current_env rest (out @ [Line_invalid env_file])
          else (Inl e, out)
      | Inr txt \<Rightarrow>
          if is_blank txt then list_loop current_env rest (out @ [Line_invalid env_file])
          else (case json_loads txt of
            Inl e \<Rightarrow>
              if e = JSONDecodeError
              then list_loop current_env rest (out @ [Line_invalid env_file])
              else (Inl e, out)
          | Inr env_config \<Rightarrow>
              (case py_in ''name'' env_config of
                 Inl e \<Rightarrow> (Inl e, out)
               | Inr True \<Rightarrow>
                   (case py_getitem env_config ''name'' of
                      Inl e \<Rightarrow> (Inl e, out)
                    | Inr n \<Rightarrow>
                        list_loop current_env rest (out @ [Line_env n (n = JStr current_env)]))
               | Inr False \<Rightarrow> list_loop current_env rest (out @ [Line_invalid env_file])))))"

definition list_cmd :: "layout \<Rightarrow> bool \<Rightarrow> state \<Rightarrow> (exn + unit) \<times> line list" where
  "list_cmd L names_only s =
     (case get_current_env_name s of
        Inl e \<Rightarrow> (Inl e, [])
      | Inr current_env \<Rightarrow>
          if names_only
          then (Inr (),
                Line_stem ''base''
                # map Line_stem (filter (\<lambda>stem. stem \<noteq> ''base'') (map fst (glob L s))))
          else list_loop current_env (glob L s) [Line_base (current_env = ''base'')])"

subsection \<open>clone\<close>

definition not_exist_msg :: "string \<Rightarrow> string" where
  "not_exist_msg name = ''Error: Environment '' @ quoted name @ '' does not exist''"


subsection \<open>activate\<close>

text \<open>
  The union of the \<open>paths\<close> of every record among the \<open>*.json\<close> files; a record whose
  read raises one of the two caught exceptions is skipped. \<open>set.update\<close> iterates the
  value and needs hashable items.
\<close>

fun collect_paths :: "(string \<times> location \<times> json disk_file) list \<Rightarrow> json set \<Rightarrow> exn + json set" where
  "collect_paths [] all_envwrap_paths = Inr all_envwrap_paths"
| "collect_paths ((stem, env_file, f) # rest) all_envwrap_paths =
     (case json_load f of
        Inl e \<Rightarrow> if caught e then collect_paths rest all_envwrap_paths else Inl e
      | Inr config \<Rightarrow>
          (case get_paths config of
             Inl e \<Rightarrow> Inl e
           | Inr paths \<Rightarrow>
               (case py_iter paths of
                  Inl e \<Rightarrow> Inl e
                | Inr xs \<Rightarrow>
                    if list_all hashable xs
                    then collect_paths rest (all_envwrap_paths \<union> set xs)
                    else Inl TypeError)))"

text \<open>
  The loop \<open>for path in env.env_paths: if path not in cleaned_path: cleaned_path.insert(0, path)\<close>.
  A string is equal only to the same string; if an item is not a string, the list
  holds one afterwards, whatever the comparisons among such items give.
\<close>

fun insert_paths :: "'a list \<Rightarrow> 'a list \<Rightarrow> 'a list" where
  "insert_paths [] cleaned_path = cleaned_path"
| "insert_paths (path # rest) cleaned_path =
     insert_paths rest (if path \<notin> set cleaned_path then path # cleaned_path else cleaned_path)"

text \<open>
  The list that the in-process branch computes from the current value of \<open>PATH\<close>,
  the union set and the items of the activated environment's \<open>env_paths\<close>, before it
  is joined and stored.
\<close>

definition new_path_list :: "json set \<Rightarrow> json list \<Rightarrow> string \<Rightarrow> json list" where
  "new_path_list all_envwrap_paths paths path_value =
     (let current_path = str_split pathsep path_value;
          cleaned_path = filter (\<lambda>p. JStr p \<notin> all_envwrap_paths) current_path
      in insert_paths paths (map JStr cleaned_path))"

text \<open>
  The parameter \<open>export_shell\<close> is declared \<open>export_shell: str = typer.Option(None, ...)\<close>.
  From the command line it is \<open>None\<close> or the string given. When \<open>activate\<close> is called
  as a Python function without the argument, as \<open>delete\<close> calls it, the parameter is
  bound to its default value, the object that \<open>typer.Option(...)\<close> returns: that object
  is true in a condition and is no file name, so \<open>open\<close> raises \<open>TypeError\<close> on it.
\<close>

datatype export_arg = Arg_None | Arg_Str string | Arg_OptionInfo

definition truthy :: "export_arg \<Rightarrow> bool" where
  "truthy a = (case a of Arg_None \<Rightarrow> False | Arg_Str x \<Rightarrow> x \<noteq> [] | Arg_OptionInfo \<Rightarrow> True)"

text \<open>
  What the \<open>with open(export_shell, "w")\<close> block leaves in the file: \<open>path.replace\<close>
  needs every item of the union set to be a string, and the prepend loop, entered only
  for a true \<open>env_paths\<close>, iterates it.
\<close>

definition is_str :: "json \<Rightarrow> bool" where
  "is_str v = (case v of JStr p \<Rightarrow> True | _ \<Rightarrow> False)"

definition str_of :: "json \<Rightarrow> string" where
  "str_of v = (case v of JStr p \<Rightarrow> p | _ \<Rightarrow> [])"

definition write_script :: "json set \<Rightarrow> json \<Rightarrow> string \<Rightarrow> exn + script" where
  "write_script all_envwrap_paths paths name =
     (if False \<in> is_str ` all_envwrap_paths then Inl AttributeError
      else if py_truthy paths
      then (case py_iter paths of
              Inl e \<Rightarrow> Inl e
            | Inr xs \<Rightarrow> Inr (Script (str_of ` all_envwrap_paths) xs name))
      else Inr (Script (str_of ` all_envwrap_paths) [] name))"

text \<open>
  The file that the block leaves behind, where the argument points. The script begins
  with \<open>#!/bin/bash\<close>: read as the pointer or as a record, it is text that is not
  JSON.
\<close>

definition write_export :: "layout \<Rightarrow> string \<Rightarrow> script \<Rightarrow> state \<Rightarrow> state" where
  "write_export L dest sc s =
     (case export_file L dest of
        Ref_config \<Rightarrow> s\<lparr>config_file := Some (Text Malformed)\<rparr>
      | Ref_record l \<Rightarrow> s\<lparr>env_files := AList.update l (Text Malformed) (env_files s)\<rparr>
      | Ref_other k \<Rightarrow> s\<lparr>exported := AList.update k sc (exported s)\<rparr>)"

text \<open>\<open>activate\<close> after the existence check\<close>

definition activate_checked :: "layout \<Rightarrow> string \<Rightarrow> export_arg \<Rightarrow> state \<Rightarrow> unit result" where
  "activate_checked L name export_shell s =
     (case collect_paths (glob L s) {} of
        Inl e \<Rightarrow> (Inl e, s)
      | Inr all_envwrap_paths \<Rightarrow>
          (let s1 = set_current_env name s in
           case Env L name s1 of
             Inl e \<Rightarrow> (Inl e, s1)
           | Inr env \<Rightarrow>
               if truthy export_shell
               then (case export_shell of
                       Arg_Str dest \<Rightarrow>
                         (case write_script all_envwrap_paths (env_paths env) name of
                            Inl e \<Rightarrow> (Inl e, write_export L dest Truncated s1)
                          | Inr sc \<Rightarrow> (Inr (), write_export L dest sc s1))
                     | _ \<Rightarrow> (Inl TypeError, s1))
               else (case py_iter (env_paths env) of
                       Inl e \<Rightarrow> (Inl e, s1)
                     | Inr paths \<Rightarrow>
                         (case py_join pathsep
                                 (new_path_list all_envwrap_paths paths (path_var s1)) of
                            Inl e \<Rightarrow> (Inl e, s1)
                          | Inr v \<Rightarrow> (Inr (), s1\<lparr>path_var := v\<rparr>)))))"

definition activate :: "layout \<Rightarrow> string \<Rightarrow> export_arg \<Rightarrow> state \<Rightarrow> unit result" where
  "activate L name export_shell s =
     (if name \<noteq> ''base''
      then (case file_exists L s name of
              Inl e \<Rightarrow> (Inl e, s)
            | Inr False \<Rightarrow> (Inl (Exit (not_exist_msg name) 1), s)
            | Inr True \<Rightarrow> activate_checked L name export_shell s)
      else activate_checked L name export_shell s)"

subsection \<open>addpath and removepath\<close>

text \<open>\<open>exists\<close> is \<open>Path(path).exists()\<close> for the path given, a parameter like \<open>resolve\<close>.\<close>

definition addpath ::
  "layout \<Rightarrow> (string \<Rightarrow> bool) \<Rightarrow> (string \<Rightarrow> string) \<Rightarrow> string \<Rightarrow> state \<Rightarrow> unit result"
where
  "addpath L exists resolve path s =
     (if \<not> exists path
      then (Inl (Exit (''Error: Path '' @ quoted path @ '' does not exist'') 1), s)
      else (case get_current_env_name s of
        Inl e \<Rightarrow> (Inl e, s)
      | Inr current_env_name \<Rightarrow>
          (case Env L current_env_name s of
             Inl e \<Rightarrow> (Inl e, s)
           | Inr env \<Rightarrow>
               (case add_path L resolve path env s of
                  (Inl e, env', s') \<Rightarrow> (Inl e, s')
                | (Inr True, env', s') \<Rightarrow>
                    (let abs_path = resolve path in
                     if abs_path \<notin> set (str_split pathsep (path_var s'))
                     then (Inr (), s'\<lparr>path_var := abs_path @ pathsep # path_var s'\<rparr>)
                     else (Inr (), s'))
                | (Inr False, env', s') \<Rightarrow> (Inr (), s')))))"


subsection \<open>delete\<close>

definition delete :: "layout \<Rightarrow> string \<Rightarrow> state \<Rightarrow> unit result" where
  "delete L name s =
     (if name = ''base'' then (Inl (Exit ''Error: Cannot delete the base environment'' 1), s)
      else (case file_exists L s name of
        Inl e \<Rightarrow> (Inl e, s)
      | Inr False \<Rightarrow> (Inl (Exit (not_exist_msg name) 1), s)
      | Inr True \<Rightarrow>
          (case get_current_env_name s of
             Inl e \<Rightarrow> (Inl e, s)
           | Inr current_env_name \<Rightarrow>
               (case (if current_env_name = name then activate L ''base'' Arg_OptionInfo s
                      else (Inr (), s)) of
                  (Inl e, s1) \<Rightarrow> (Inl e, s1)
                | (Inr u, s1) \<Rightarrow>
                    (Inr (),
                     s1\<lparr>env_files := AList.delete (env_file_path L name) (env_files s1)\<rparr>)))))"

section \<open>Notions for stating the properties\<close>

text \<open>
  The items that one record file contributes to the union: the items of the \<open>paths\<close>
  of a record that parses to an object, nothing for any other file.
\<close>

definition record_paths :: "json disk_file \<Rightarrow> json set" where
  "record_paths f =
     (case f of
        Text (Json (JObj kvs)) \<Rightarrow>
          (case py_iter (case map_of kvs ''paths'' of None \<Rightarrow> JArr [] | Some v \<Rightarrow> v) of
             Inl e \<Rightarrow> {}
           | Inr xs \<Rightarrow> set xs)
      | _ \<Rightarrow> {})"

definition union_paths :: "(string \<times> location \<times> json disk_file) list \<Rightarrow> json set" where
  "union_paths fs = \<Union> (set (map (\<lambda>entry. record_paths (snd (snd entry))) fs))"


text \<open>The record file of an environment, if there is one.\<close>

definition record_file :: "layout \<Rightarrow> string \<Rightarrow> state \<Rightarrow> json disk_file option" where
  "record_file L name s = map_of (env_files s) (env_file_path L name)"

text \<open>The entries of a \<open>PATH\<close> value that are not in the union set, in their order.\<close>

definition kept_entries :: "json set \<Rightarrow> string \<Rightarrow> string list" where
  "kept_entries U path_value = filter (\<lambda>p. JStr p \<notin> U) (str_split pathsep path_value)"


subsection \<open>A concrete layout and concrete registries\<close>

text \<open>
  The layout of a registry directory \<open>/envs\<close> where a path denotes the file that its
  components name: empty components and \<open>.\<close> are dropped, as \<open>pathlib\<close> drops them, and
  an absolute name replaces the directory. The glob yields the files directly in
  \<open>/envs\<close> whose name ends in \<open>.json\<close>, with the stem that \<open>pathlib\<close> gives them. An
  absolute export path denotes the pointer file \<open>/envs/.current_env\<close>, or a file with
  a name in \<open>.json\<close>, which may be a record, or another file.
\<close>

definition path_parts :: "string \<Rightarrow> string list" where
  "path_parts p = filter (\<lambda>c. c \<noteq> [] \<and> c \<noteq> ''.'') (str_split (CHR ''/'') p)"

definition posix_env_file_path :: "string \<Rightarrow> location" where
  "posix_env_file_path name =
     concat (map (\<lambda>c. CHR ''/'' # c)
       (path_parts ((if take 1 name = ''/'' then [] else ''/envs/'') @ name @ ''.json'')))"

definition json_stem :: "string \<Rightarrow> string option" where
  "json_stem file =
     (if file = ''.json'' then Some file
      else if 5 < length file \<and> drop (length file - 5) file = ''.json''
      then Some (take (length file - 5) file)
      else None)"

definition posix_glob_stem :: "location \<Rightarrow> string option" where
  "posix_glob_stem l =
     (case path_parts l of
        [d, file] \<Rightarrow> if d = ''envs'' then json_stem file else None
      | _ \<Rightarrow> None)"

definition posix_export_file :: "string \<Rightarrow> file_ref" where
  "posix_export_file dest =
     (if take 1 dest = ''/''
      then (let l = concat (map (\<lambda>c. CHR ''/'' # c) (path_parts dest)) in
            if l = ''/envs/.current_env'' then Ref_config
            else (case rev (path_parts dest) of
                    [] \<Rightarrow> Ref_other l
                  | file # dirs \<Rightarrow> if json_stem file \<noteq> None then Ref_record l else Ref_other l))
      else Ref_other dest)"

definition posix_layout :: layout where
  "posix_layout =
     \<lparr>env_file_path = posix_env_file_path, glob_stem = posix_glob_stem,
      export_file = posix_export_file\<rparr>"

definition raw_record :: "string \<Rightarrow> json \<Rightarrow> json disk_file" where
  "raw_record name v = Text (Json (JObj [(''name'', JStr name), (''paths'', v)]))"

definition record_of :: "string \<Rightarrow> string list \<Rightarrow> json disk_file" where
  "record_of name paths = raw_record name (JArr (map JStr paths))"

text \<open>A registry with the single environment \<open>dev\<close>.\<close>

definition dev_state :: "string list \<Rightarrow> string \<Rightarrow> state" where
  "dev_state paths path_value =
     \<lparr>env_files = [(''/envs/dev.json'', record_of ''dev'' paths)],
      config_file = Some (Text (Json ''base'')),
      path_var = path_value,
      exported = []\<rparr>"

text \<open>
  A registry with \<open>dev\<close> and \<open>ci\<close> and, between them in directory order, any further
  files.
\<close>

definition dev_ci_state ::
  "string list \<Rightarrow> string list \<Rightarrow> (location \<times> json disk_file) list \<Rightarrow> string \<Rightarrow> state"
where
  "dev_ci_state dev_paths ci_paths others path_value =
     \<lparr>env_files =
        (''/envs/dev.json'', record_of ''dev'' dev_paths) # others
        @ [(''/envs/ci.json'', record_of ''ci'' ci_paths)],
      config_file = Some (Text (Json ''base'')),
      path_var = path_value,
      exported = []\<rparr>"

text \<open>
  A registry with \<open>ci\<close> and with an environment named \<open>sub/dev\<close>, whose record file
  is in the subdirectory \<open>sub\<close>.
\<close>

definition nested_state :: "string list \<Rightarrow> string list \<Rightarrow> string \<Rightarrow> state" where
  "nested_state nested_paths ci_paths path_value =
     \<lparr>env_files =
        [(''/envs/sub/dev.json'', record_of ''sub/dev'' nested_paths),
         (''/envs/ci.json'', record_of ''ci'' ci_paths)],
      config_file = Some (Text (Json ''base'')),
      path_var = path_value,
      exported = []\<rparr>"


text \<open>
  A registry with \<open>base\<close>, two valid environments and one record of each kind that the
  listing reports as invalid; \<open>dev\<close> is active and its path is on \<open>PATH\<close>.
\<close>

definition registry_state :: state where
  "registry_state =
     \<lparr>env_files =
        [(''/envs/base.json'', record_of ''base'' []),
         (''/envs/dev.json'', record_of ''dev'' [''/opt/dev/bin'']),
         (''/envs/broken.json'', Text Malformed),
         (''/envs/empty.json'', Text Blank),
         (''/envs/locked.json'', Unreadable),
         (''/envs/anon.json'', Text (Json (JObj [(''paths'', JArr [JStr ''/opt/anon''])]))),
         (''/envs/ci.json'', record_of ''ci'' [''/opt/ci/bin''])],
      config_file = Some (Text (Json ''dev'')),
      path_var = ''/opt/dev/bin:/usr/bin:/bin'',
      exported = []\<rparr>"

section \<open>Evaluation\<close>

lemmas layout_defs = posix_layout_def posix_env_file_path_def posix_glob_stem_def json_stem_def
  posix_export_file_def path_parts_def str_split_def

lemmas eval_defs = file_exists_def path_exists_def json_load_def read_text_def json_loads_def
  caught_def get_paths_def set_current_env_def Env_def load_def truthy_def new_path_list_def
  pathsep_def get_current_env_name_def save_def py_iter_def hashable_def py_join_def glob_def
  List.map_filter_def record_of_def raw_record_def py_in_def py_getitem_def is_blank_def Let_def

lemma JStr_mem_image [simp]: "(JStr x \<in> JStr ` A) = (x \<in> A)"
  by auto

section \<open>The union step\<close>

lemma collect_paths_Inr:
  "collect_paths fs acc = Inr U \<Longrightarrow> U = acc \<union> union_paths fs"
proof (induction fs arbitrary: acc)
  case Nil
  then show ?case by (simp add: union_paths_def)
next
  case (Cons a fs)
  obtain stem l f where a: "a = (stem, l, f)" by (cases a)
  from Cons.prems show ?case
    by (auto simp: a json_load_def read_text_def json_loads_def get_paths_def record_paths_def
        union_paths_def caught_def
        split: disk_file.splits content.splits json.splits sum.splits if_splits option.splits
        dest!: Cons.IH)
qed


lemma glob_member:
  "map_of fs l = Some f \<Longrightarrow> glob_stem L l = Some stem \<Longrightarrow>
   (stem, l, f) \<in> set (glob L (s\<lparr>env_files := fs\<rparr>))"
proof -
  assume m: "map_of fs l = Some f" and g: "glob_stem L l = Some stem"
  from m have "(l, f) \<in> set fs" by (rule map_of_SomeD)
  with g show ?thesis
    by (force simp: glob_def List.map_filter_def)
qed

lemma glob_member': 
  "map_of (env_files s) l = Some f \<Longrightarrow> glob_stem L l = Some stem \<Longrightarrow> (stem, l, f) \<in> set (glob L s)"
  using glob_member[of "env_files s" l f L stem s] by simp

lemma record_paths_subset:
  "(stem, l, f) \<in> set fs \<Longrightarrow> record_paths f \<subseteq> union_paths fs"
  by (force simp: union_paths_def)

lemma glob_set_current_env [simp]: "glob L (set_current_env n s) = glob L s"
  by (simp add: glob_def set_current_env_def)

lemma load_set_current_env [simp]: "load L name (set_current_env n s) = load L name s"
  by (simp add: load_def set_current_env_def)

lemma Env_set_current_env [simp]: "Env L name (set_current_env n s) = Env L name s"
  by (simp add: Env_def)

lemma load_items_in_record:
  assumes "map_of (env_files s) (env_file_path L name) = Some f"
    and "load L name s = Inr v" and "py_iter v = Inr xs"
  shows "set xs \<subseteq> record_paths f \<or> xs = []"
  using assms
  by (auto simp: load_def path_exists_def json_load_def read_text_def json_loads_def get_paths_def
      record_paths_def caught_def py_iter_def
      split: disk_file.splits content.splits json.splits sum.splits option.splits if_splits)

lemma load_missing:
  "map_of (env_files s) (env_file_path L name) = None \<Longrightarrow> load L name s = Inr (JArr [])"
  by (simp add: load_def)

lemma loaded_items_in_union:
  assumes c: "collect_paths (glob L s) {} = Inr U"
    and l: "load L name s = Inr v" and i: "py_iter v = Inr xs"
    and g: "glob_stem L (env_file_path L name) \<noteq> None"
  shows "set xs \<subseteq> U"
proof (cases "map_of (env_files s) (env_file_path L name)")
  case None
  with l have "v = JArr []" by (simp add: load_missing)
  with i show ?thesis by (simp add: py_iter_def)
next
  case (Some f)
  from g obtain stem where st: "glob_stem L (env_file_path L name) = Some stem" by auto
  from glob_member'[OF Some st] have "record_paths f \<subseteq> union_paths (glob L s)"
    by (rule record_paths_subset)
  moreover from collect_paths_Inr[OF c] have "U = union_paths (glob L s)" by simp
  ultimately show ?thesis using load_items_in_record[OF Some l i] by auto
qed

section \<open>Splitting and joining\<close>

lemma split_aux_no_sep:
  "split_aux c s = (w, ws) \<Longrightarrow> c \<notin> set w \<and> (\<forall>x \<in> set ws. c \<notin> set x)"
  by (induction s arbitrary: w ws) (auto split: prod.splits if_splits)

lemma str_split_no_sep: "x \<in> set (str_split c s) \<Longrightarrow> c \<notin> set x"
proof -
  obtain w ws where e: "split_aux c s = (w, ws)" by (cases "split_aux c s")
  assume "x \<in> set (str_split c s)"
  with e have "x = w \<or> x \<in> set ws" by (simp add: str_split_def)
  with split_aux_no_sep[OF e] show ?thesis by blast
qed

lemma split_aux_append: "c \<notin> set x \<Longrightarrow> split_aux c (x @ c # s) = (x, str_split c s)"
  by (induction x) (auto simp: str_split_def split: prod.splits)

lemma split_aux_plain: "c \<notin> set x \<Longrightarrow> split_aux c x = (x, [])"
  by (induction x) auto

lemma str_split_join:
  "xs \<noteq> [] \<Longrightarrow> \<forall>x \<in> set xs. c \<notin> set x \<Longrightarrow> str_split c (str_join c xs) = xs"
proof (induction c xs rule: str_join.induct)
  case (1 c)
  then show ?case by simp
next
  case (2 c x)
  then show ?case by (simp add: str_split_def split_aux_plain)
next
  case (3 c x y ys)
  then show ?case by (simp add: str_split_def split_aux_append)
qed

lemma str_split_empty: "str_split c [] = [[]]"
  by (simp add: str_split_def)

lemma strings_of_map [simp]: "strings_of (map JStr ss) = Some ss"
  by (induction ss) auto

lemma strings_of_Some: "strings_of xs = Some ss \<Longrightarrow> xs = map JStr ss"
  by (induction xs arbitrary: ss rule: strings_of.induct) (auto split: option.splits)

lemma py_join_map [simp]: "py_join c (map JStr ss) = Inr (str_join c ss)"
  by (simp add: py_join_def)

lemma py_join_Inr: "py_join c xs = Inr v \<Longrightarrow> \<exists>ss. xs = map JStr ss \<and> v = str_join c ss"
  by (auto simp: py_join_def split: option.splits dest: strings_of_Some)

section \<open>The in-process path transition\<close>

lemma remdups_snoc: "remdups (ys @ [p]) = filter (\<lambda>q. q \<noteq> p) (remdups ys) @ [p]"
  by (induction ys) auto

lemma insert_paths_eq:
  "insert_paths paths c = remdups (rev (filter (\<lambda>p. p \<notin> set c) paths)) @ c"
proof (induction paths arbitrary: c)
  case Nil
  show ?case by simp
next
  case (Cons p paths)
  show ?case
  proof (cases "p \<in> set c")
    case True
    then show ?thesis by (simp add: Cons)
  next
    case False
    have "filter (\<lambda>q. q \<noteq> p) (remdups (rev (filter (\<lambda>q. q \<notin> set c) paths)))
          = remdups (rev (filter (\<lambda>q. q \<notin> set (p # c)) paths))"
      by (simp add: rev_filter remdups_filter conj_commute)
    with False show ?thesis by (simp add: Cons remdups_snoc)
  qed
qed

lemma remdups_map_JStr: "remdups (map JStr xs) = map JStr (remdups xs)"
  by (induction xs) auto

lemma new_path_list_strings:
  "new_path_list U (map JStr T) v =
     map JStr
       (remdups (rev (filter (\<lambda>p. p \<notin> set (filter (\<lambda>p. JStr p \<notin> U) (str_split pathsep v))) T))
        @ filter (\<lambda>p. JStr p \<notin> U) (str_split pathsep v))"
proof -
  have "filter (\<lambda>x. x \<notin> JStr ` set c) (map JStr T) = map JStr (filter (\<lambda>p. p \<notin> set c) T)" for c
    by (induction T) auto
  then show ?thesis
    by (simp add: new_path_list_def insert_paths_eq Let_def rev_map remdups_map_JStr
        del: set_filter)
qed


section \<open>Activating twice\<close>

lemma kept_entries_not_in: "p \<in> set (kept_entries U v) \<Longrightarrow> JStr p \<notin> U"
  by (simp add: kept_entries_def)

lemma kept_entries_no_sep: "p \<in> set (kept_entries U v) \<Longrightarrow> pathsep \<notin> set p"
  using str_split_no_sep[of p pathsep v] by (simp add: kept_entries_def)

lemma path_list_twice:
  assumes sub: "\<forall>p \<in> set T. JStr p \<in> U" and nosep: "\<forall>p \<in> set T. pathsep \<notin> set p"
  shows "str_join pathsep
           (remdups (rev (filter (\<lambda>p. p \<notin> set (kept_entries U
                (str_join pathsep (remdups (rev T) @ kept_entries U v)))) T))
            @ kept_entries U (str_join pathsep (remdups (rev T) @ kept_entries U v)))
         = str_join pathsep (remdups (rev T) @ kept_entries U v)"
proof -
  define c where "c = kept_entries U v"
  define pv where "pv = str_join pathsep (remdups (rev T) @ c)"
  have fT: "filter (\<lambda>p. p \<notin> set (kept_entries U w)) T = T" for w
    using sub kept_entries_not_in[of _ U w] by (auto simp: filter_id_conv)
  show ?thesis
  proof (cases "remdups (rev T) @ c = []")
    case True
    then have pv0: "pv = []" and T: "T = []" by (auto simp: pv_def)
    have "kept_entries U [] = [] \<or> kept_entries U [] = [[]]"
      by (simp add: kept_entries_def str_split_empty)
    then have "str_join pathsep (kept_entries U []) = []" by auto
    with True T show ?thesis by (simp add: c_def)
  next
    case False
    have "\<forall>x \<in> set (remdups (rev T) @ c). pathsep \<notin> set x"
      using nosep kept_entries_no_sep[of _ U v] by (auto simp: c_def)
    with False have sp: "str_split pathsep pv = remdups (rev T) @ c"
      unfolding pv_def by (rule str_split_join)
    have "filter (\<lambda>p. JStr p \<notin> U) (remdups (rev T) @ c) = c"
      using sub kept_entries_not_in[of _ U v] by (auto simp: filter_empty_conv filter_id_conv c_def)
    then have k: "kept_entries U pv = c" by (simp add: kept_entries_def sp)
    show ?thesis
      using fT[of pv] k by (simp add: pv_def[symmetric] c_def[symmetric])
  qed
qed

lemma all_strings: "\<forall>x \<in> set xs. \<exists>p. x = JStr p \<Longrightarrow> \<exists>T. xs = map JStr T"
proof (induction xs)
  case Nil
  show ?case by simp
next
  case (Cons x xs)
  then obtain p T where "x = JStr p" "xs = map JStr T" by auto
  then have "x # xs = map JStr (p # T)" by simp
  then show ?case by (rule exI)
qed

lemma new_path_list_all_strings:
  assumes j: "py_join pathsep (new_path_list U xs v) = Inr pv" and sub: "set xs \<subseteq> U"
  shows "\<exists>T. xs = map JStr T \<and> pv = str_join pathsep (remdups (rev T) @ kept_entries U v)"
proof -
  from py_join_Inr[OF j] obtain ss where
    ss: "new_path_list U xs v = map JStr ss" and pv: "pv = str_join pathsep ss" by blast
  have "\<forall>x \<in> set xs. x \<notin> JStr ` set (kept_entries U v)"
    using sub kept_entries_not_in[of _ U v] by auto
  then have f: "filter (\<lambda>x. x \<notin> set (map JStr (kept_entries U v))) xs = xs"
    by (auto simp: filter_id_conv)
  have n: "new_path_list U xs v = remdups (rev xs) @ map JStr (kept_entries U v)"
    by (simp only: new_path_list_def Let_def insert_paths_eq kept_entries_def[symmetric] f)
  have "set xs \<subseteq> set (map JStr ss)"
    using ss n by (metis set_remdups set_rev set_append Un_upper1)
  then have "\<forall>x \<in> set xs. \<exists>p. x = JStr p" by auto
  then obtain T where xs: "xs = map JStr T" using all_strings by blast
  have "map JStr ss = map JStr (remdups (rev T) @ kept_entries U v)"
    using ss n by (simp add: xs remdups_map_JStr rev_map)
  then have "ss = remdups (rev T) @ kept_entries U v"
    by (simp add: inj_map_eq_map inj_on_def del: map_append)
  with xs pv show ?thesis by auto
qed

lemma new_path_list_twice:
  assumes j: "py_join pathsep (new_path_list U xs v) = Inr pv" and sub: "set xs \<subseteq> U"
    and nosep: "\<And>p. JStr p \<in> set xs \<Longrightarrow> pathsep \<notin> set p"
  shows "py_join pathsep (new_path_list U xs pv) = Inr pv"
proof -
  from new_path_list_all_strings[OF j sub] obtain T where
    xs: "xs = map JStr T" and pv: "pv = str_join pathsep (remdups (rev T) @ kept_entries U v)"
    by blast
  have s1: "\<forall>p \<in> set T. JStr p \<in> U" using sub xs by auto
  have s2: "\<forall>p \<in> set T. pathsep \<notin> set p" using nosep xs by auto
  show ?thesis
    using path_list_twice[OF s1 s2, of v]
    by (simp only: xs new_path_list_strings py_join_map kept_entries_def[symmetric] pv)
qed

lemma env_files_activate_checked:
  "\<forall>dest. ex \<noteq> Arg_Str dest \<Longrightarrow> env_files (snd (activate_checked L name ex s)) = env_files s"
  by (auto simp: activate_checked_def Let_def set_current_env_def
      split: sum.splits export_arg.splits option.splits)

lemma env_files_activate:
  "\<forall>dest. ex \<noteq> Arg_Str dest \<Longrightarrow> env_files (snd (activate L name ex s)) = env_files s"
  by (auto simp: activate_def env_files_activate_checked split: sum.splits bool.splits)


lemma load_cong: "env_files t = env_files s \<Longrightarrow> load L name t = load L name s"
  by (simp add: load_def)

lemma file_exists_cong: "env_files t = env_files s \<Longrightarrow> file_exists L t name = file_exists L s name"
  by (simp add: file_exists_def)

lemma activate_checked_twice:
  assumes g: "glob_stem L (env_file_path L name) \<noteq> None"
    and nosep: "\<And>v xs p. load L name s = Inr v \<Longrightarrow> py_iter v = Inr xs \<Longrightarrow> JStr p \<in> set xs
                  \<Longrightarrow> pathsep \<notin> set p"
  shows "activate_checked L name Arg_None (snd (activate_checked L name Arg_None s))
         = activate_checked L name Arg_None s"
proof (cases "collect_paths (glob L s) {}")
  case (Inl e)
  then show ?thesis by (simp add: activate_checked_def)
next
  case (Inr U)
  define s1 where "s1 = set_current_env name s"
  have s11: "set_current_env name s1 = s1" by (simp add: s1_def set_current_env_def)
  have g1: "glob L s1 = glob L s" by (simp add: s1_def)
  have l1: "load L name s1 = load L name s" by (simp add: s1_def)
  have p1: "path_var s1 = path_var s" by (simp add: s1_def set_current_env_def)
  show ?thesis
  proof (cases "load L name s")
    case (Inl e)
    then have a: "activate_checked L name Arg_None s = (Inl e, s1)"
      by (simp add: activate_checked_def Inr Env_def s1_def)
    have "activate_checked L name Arg_None s1 = (Inl e, s1)"
      using Inl by (simp add: activate_checked_def g1 Inr s11 Env_def l1)
    with a show ?thesis by simp
  next
    case l: (Inr v)
    show ?thesis
    proof (cases "py_iter v")
      case (Inl e)
      then have a: "activate_checked L name Arg_None s = (Inl e, s1)"
        by (simp add: activate_checked_def Inr Env_def l truthy_def s1_def)
      have "activate_checked L name Arg_None s1 = (Inl e, s1)"
        using Inl l
        by (simp add: activate_checked_def g1 Inr s11 Env_def truthy_def l1)
      with a show ?thesis by simp
    next
      case i: (Inr xs)
      have sub: "set xs \<subseteq> U" by (rule loaded_items_in_union[OF Inr l i g])
      show ?thesis
      proof (cases "py_join pathsep (new_path_list U xs (path_var s))")
        case (Inl e)
        then have a: "activate_checked L name Arg_None s = (Inl e, s1)"
          by (simp add: activate_checked_def Inr Env_def l l1 i truthy_def p1 s1_def[symmetric])
        have "activate_checked L name Arg_None s1 = (Inl e, s1)"
          using Inl l i
          by (simp add: activate_checked_def g1 Inr s11 Env_def truthy_def p1 l1)
        with a show ?thesis by simp
      next
        case j: (Inr pv)
        define s2 where "s2 = s1\<lparr>path_var := pv\<rparr>"
        have a: "activate_checked L name Arg_None s = (Inr (), s2)"
          using j
          by (simp add: activate_checked_def Inr Env_def l l1 i truthy_def p1 s1_def[symmetric] s2_def)
        have g2: "glob L s2 = glob L s" by (simp add: s2_def s1_def glob_def set_current_env_def)
        have l2: "load L name s2 = Inr v"
          using l by (simp add: s2_def s1_def load_def set_current_env_def)
        have s22: "set_current_env name s2 = s2"
          by (simp add: s2_def s1_def set_current_env_def)
        have j2: "py_join pathsep (new_path_list U xs pv) = Inr pv"
          by (rule new_path_list_twice[OF j sub]) (rule nosep[OF l i])
        have "activate_checked L name Arg_None s2 = (Inr (), s2)"
          using j2
          by (simp add: activate_checked_def g2 Inr s22 Env_def l2 i truthy_def)
             (simp add: s2_def)
        with a show ?thesis by simp
      qed
    qed
  qed
qed

section \<open>Readable records\<close>




section \<open>What the commands write\<close>






lemma record_file_set_current_env [simp]:
  "record_file L name (set_current_env n s) = record_file L name s"
  by (simp add: record_file_def set_current_env_def)

lemma record_file_activate:
  "\<forall>dest. ex \<noteq> Arg_Str dest \<Longrightarrow>
   record_file L name (snd (activate L n ex s)) = record_file L name s"
  by (simp add: record_file_def env_files_activate)








section \<open>delete\<close>

lemma delete_base:
  "delete L ''base'' s = (Inl (Exit ''Error: Cannot delete the base environment'' 1), s)"
  by (simp add: delete_def)

lemma activate_base_default_raises: "\<exists>e. fst (activate L ''base'' Arg_OptionInfo s) = Inl e"
  by (auto simp: activate_def activate_checked_def Let_def truthy_def split: sum.splits)

lemma delete_active:
  assumes "name \<noteq> ''base''" "file_exists L s name = Inr True" "get_current_env_name s = Inr name"
  shows "\<exists>e. fst (delete L name s) = Inl e \<and>
             record_file L name (snd (delete L name s)) = record_file L name s"
proof -
  obtain e where e: "fst (activate L ''base'' Arg_OptionInfo s) = Inl e"
    using activate_base_default_raises by blast
  obtain r t where a: "activate L ''base'' Arg_OptionInfo s = (r, t)"
    by (cases "activate L ''base'' Arg_OptionInfo s")
  have "record_file L name (snd (activate L ''base'' Arg_OptionInfo s)) = record_file L name s"
    by (simp add: record_file_activate)
  with a have t: "record_file L name t = record_file L name s" by simp
  from e a have r: "r = Inl e" by simp
  show ?thesis using assms a r t by (simp add: delete_def)
qed

lemma delete_inactive:
  assumes "name \<noteq> ''base''" "file_exists L s name = Inr True"
    "get_current_env_name s = Inr other" "other \<noteq> name"
  shows "delete L name s =
           (Inr (), s\<lparr>env_files := AList.delete (env_file_path L name) (env_files s)\<rparr>)"
  using assms by (simp add: delete_def)

section \<open>The pointer and the listing on the caught kinds\<close>

lemma get_current_env_name_caught:
  "get_current_env_name (s\<lparr>config_file := None\<rparr>) = Inr ''base'' \<and>
   get_current_env_name (s\<lparr>config_file := Some Unreadable\<rparr>) = Inr ''base'' \<and>
   get_current_env_name (s\<lparr>config_file := Some (Text Blank)\<rparr>) = Inr ''base'' \<and>
   get_current_env_name (s\<lparr>config_file := Some (Text Malformed)\<rparr>) = Inr ''base'' \<and>
   get_current_env_name (s\<lparr>config_file := Some (Text (Json n))\<rparr>) = Inr n"
  by (simp add: eval_defs)

lemma list_cmd_registry:
  "list_cmd posix_layout False registry_state =
     (Inr (),
      [Line_base False,
       Line_env (JStr ''dev'') True,
       Line_invalid ''/envs/broken.json'',
       Line_invalid ''/envs/empty.json'',
       Line_invalid ''/envs/locked.json'',
       Line_invalid ''/envs/anon.json'',
       Line_env (JStr ''ci'') False])"
  by (simp add: list_cmd_def registry_state_def eval_defs layout_defs)

section \<open>Properties\<close>







text \<open>
  C3: \<open>delete\<close> of the active environment \<open>dev\<close>. The source calls \<open>activate("base")\<close>
  without the second argument: the pointer is written, then \<open>open\<close> raises
  \<open>TypeError\<close> on the default value of \<open>export_shell\<close>, and the \<open>unlink\<close> is not
  reached. The record of \<open>dev\<close> is still there afterwards, where the specification
  says it is removed. \<open>delete("base")\<close> ends with exit code 1 and changes nothing.
\<close>

theorem delete_active_raises:
  "delete posix_layout ''dev'' registry_state =
     (Inl TypeError, registry_state\<lparr>config_file := Some (Text (Json ''base''))\<rparr>) \<and>
   file_exists posix_layout (snd (delete posix_layout ''dev'' registry_state)) ''dev'' = Inr True \<and>
   delete posix_layout ''base'' registry_state =
     (Inl (Exit ''Error: Cannot delete the base environment'' 1), registry_state)"
  by (simp add: delete_def activate_def activate_checked_def registry_state_def eval_defs layout_defs)

text \<open>
  C4, as the specification states it: activating the same environment twice gives the
  same path list both times. \<open>PATH\<close> is split at the separator on every activation, so
  a stored path that contains the separator comes back in pieces that the union set
  does not hold: with the stored path \<open>/a:b\<close> the second activation prepends it again.
  And the paths of \<open>sub/dev\<close>, whose record the glob does not yield, are in the union
  only where another record has them: with \<open>/s\<close>, \<open>/x\<close> stored and \<open>/s\<close> also a path of
  \<open>ci\<close>, the first activation stores \<open>/x:/s:/usr/bin\<close> and the second
  \<open>/s:/x:/usr/bin\<close>.
\<close>

theorem activate_twice_counterexample:
  "path_var (snd (activate posix_layout ''dev'' Arg_None (dev_state [''/a:b''] ''/usr/bin'')))
     = ''/a:b:/usr/bin''
   \<and> path_var (snd (activate posix_layout ''dev'' Arg_None
        (snd (activate posix_layout ''dev'' Arg_None (dev_state [''/a:b''] ''/usr/bin'')))))
     = ''/a:b:/a:b:/usr/bin''
   \<and> path_var (snd (activate posix_layout ''sub/dev'' Arg_None
                      (nested_state [''/s'', ''/x''] [''/s''] ''/usr/bin'')))
     = ''/x:/s:/usr/bin''
   \<and> path_var (snd (activate posix_layout ''sub/dev'' Arg_None
        (snd (activate posix_layout ''sub/dev'' Arg_None
                (nested_state [''/s'', ''/x''] [''/s''] ''/usr/bin'')))))
     = ''/s:/x:/usr/bin''"
  by (simp add: activate_def activate_checked_def dev_state_def nested_state_def
      eval_defs layout_defs)

text \<open>
  C4, amended: let the glob yield the file that is or would be the record file of
  \<open>name\<close>, and let no string among the target's \<open>paths\<close> contain the separator. Then
  for every value of \<open>PATH\<close>, activating \<open>name\<close> again after activating it ends as the
  first activation ended and leaves \<open>PATH\<close>, the pointer and the records as the first
  activation left them.
\<close>

theorem activate_idempotent:
  assumes g: "glob_stem L (env_file_path L name) \<noteq> None"
    and nosep: "\<And>v xs p. load L name s = Inr v \<Longrightarrow> py_iter v = Inr xs \<Longrightarrow> JStr p \<in> set xs
                  \<Longrightarrow> pathsep \<notin> set p"
  shows "activate L name Arg_None (snd (activate L name Arg_None s)) = activate L name Arg_None s"
proof -
  have tw: "activate_checked L name Arg_None (snd (activate_checked L name Arg_None s))
            = activate_checked L name Arg_None s"
    by (rule activate_checked_twice[OF g]) (rule nosep)
  have fe: "file_exists L (snd (activate_checked L name Arg_None s)) name = file_exists L s name"
    by (rule file_exists_cong) (simp add: env_files_activate_checked)
  show ?thesis
  proof (cases "name = ''base''")
    case True
    with tw show ?thesis by (simp add: activate_def)
  next
    case False
    show ?thesis
    proof (cases "file_exists L s name")
      case (Inl e)
      with False show ?thesis by (simp add: activate_def)
    next
      case (Inr b)
      with False tw fe show ?thesis by (cases b) (simp_all add: activate_def)
    qed
  qed
qed

theorem activate_idempotent_witness:
  "glob_stem posix_layout (env_file_path posix_layout ''dev'') = Some ''dev'' \<and>
   load posix_layout ''dev'' registry_state = Inr (JArr [JStr ''/opt/dev/bin'']) \<and>
   pathsep \<notin> set ''/opt/dev/bin'' \<and>
   activate posix_layout ''dev'' Arg_None registry_state =
     (Inr (), registry_state\<lparr>path_var := ''/opt/dev/bin:/usr/bin:/bin''\<rparr>) \<and>
   activate posix_layout ''dev'' Arg_None (snd (activate posix_layout ''dev'' Arg_None registry_state))
     = activate posix_layout ''dev'' Arg_None registry_state"
proof -
  have h1: "glob_stem posix_layout (env_file_path posix_layout ''dev'') \<noteq> None"
    by (simp add: layout_defs)
  have l: "load posix_layout ''dev'' registry_state = Inr (JArr [JStr ''/opt/dev/bin''])"
    by (simp add: registry_state_def eval_defs layout_defs)
  have h2: "pathsep \<notin> set p"
    if "load posix_layout ''dev'' registry_state = Inr v" "py_iter v = Inr xs" "JStr p \<in> set xs"
    for v xs p
    using that by (auto simp: l py_iter_def pathsep_def)
  have a: "activate posix_layout ''dev'' Arg_None registry_state =
     (Inr (), registry_state\<lparr>path_var := ''/opt/dev/bin:/usr/bin:/bin''\<rparr>)"
    by (simp add: activate_def activate_checked_def registry_state_def eval_defs layout_defs)
  have "activate posix_layout ''dev'' Arg_None
          (snd (activate posix_layout ''dev'' Arg_None registry_state))
        = activate posix_layout ''dev'' Arg_None registry_state"
    by (rule activate_idempotent[OF h1]) (rule h2; assumption)
  with l a show ?thesis
    by (simp add: layout_defs pathsep_def)
qed



text \<open>
  C6: activating a name other than \<open>base\<close> that has no record file ends with exit code
  1 and the message that the environment does not exist, and leaves the whole state as
  it was, for every value of \<open>export_shell\<close>. Activating \<open>base\<close> never ends with an
  exit, with or without a record file of \<open>base\<close>: it goes on to the union step and,
  unless that raises, writes the pointer, which then names \<open>base\<close> unless the script
  is exported into the pointer file.
\<close>

theorem activate_not_found:
  "(name \<noteq> ''base'' \<and> file_exists L s name = Inr False \<longrightarrow>
      activate L name export_shell s = (Inl (Exit (not_exist_msg name) 1), s)) \<and>
   (\<forall>msg code. fst (activate L ''base'' export_shell s) \<noteq> Inl (Exit msg code)) \<and>
   (\<forall>U. collect_paths (glob L s) {} = Inr U \<longrightarrow>
      (\<forall>dest. export_shell = Arg_Str dest \<longrightarrow> export_file L dest \<noteq> Ref_config) \<longrightarrow>
      config_file (snd (activate L ''base'' export_shell s)) = Some (Text (Json ''base'')))"
proof -
  have nx: "collect_paths fs acc \<noteq> Inl (Exit msg code)" for fs acc msg code
    by (induction fs acc rule: collect_paths.induct)
       (auto simp: json_load_def read_text_def json_loads_def get_paths_def py_iter_def
         split: sum.splits disk_file.splits content.splits json.splits if_splits)
  have lx: "load L n t \<noteq> Inl (Exit msg code)" for n t msg code
    by (auto simp: load_def path_exists_def json_load_def read_text_def json_loads_def
        get_paths_def
        split: option.splits sum.splits disk_file.splits content.splits json.splits if_splits)
  have ix: "py_iter v \<noteq> Inl (Exit msg code)" for v msg code
    by (auto simp: py_iter_def split: json.splits)
  have jx: "py_join c xs \<noteq> Inl (Exit msg code)" for c xs msg code
    by (auto simp: py_join_def split: option.splits)
  have wx: "write_script U v n \<noteq> Inl (Exit msg code)" for U v n msg code
    using ix by (auto simp: write_script_def split: sum.splits)
  have "fst (activate L ''base'' export_shell s) \<noteq> Inl (Exit msg code)" for msg code
    using nx[of "glob L s" "{}" msg code] lx[of "''base''" _ msg code] ix[of _ msg code]
      jx[of pathsep _ msg code] wx[of _ _ "''base''" msg code]
    by (auto simp: activate_def activate_checked_def Let_def Env_def
        split: sum.splits export_arg.splits)
  moreover have "config_file (snd (activate L ''base'' export_shell s)) = Some (Text (Json ''base''))"
    if "collect_paths (glob L s) {} = Inr U"
      and "\<forall>dest. export_shell = Arg_Str dest \<longrightarrow> export_file L dest \<noteq> Ref_config" for U
    using that
    by (auto simp: activate_def activate_checked_def Let_def set_current_env_def write_export_def
        split: sum.splits export_arg.splits file_ref.splits)
  ultimately show ?thesis by (auto simp: activate_def)
qed

theorem activate_not_found_witness:
  "''ghost'' \<noteq> ''base'' \<and> file_exists posix_layout registry_state ''ghost'' = Inr False \<and>
   activate posix_layout ''ghost'' Arg_None registry_state
     = (Inl (Exit (not_exist_msg ''ghost'') 1), registry_state) \<and>
   file_exists posix_layout (dev_state [] []) ''base'' = Inr False \<and>
   collect_paths (glob posix_layout (dev_state [] [])) {} = Inr {} \<and>
   config_file (snd (activate posix_layout ''base'' Arg_None (dev_state [] [])))
     = Some (Text (Json ''base''))"
proof -
  have a: "''ghost'' \<noteq> ''base'' \<and> file_exists posix_layout registry_state ''ghost'' = Inr False"
    by (simp add: registry_state_def eval_defs layout_defs)
  have b: "file_exists posix_layout (dev_state [] []) ''base'' = Inr False"
    by (simp add: dev_state_def eval_defs layout_defs)
  have c: "collect_paths (glob posix_layout (dev_state [] [])) {} = Inr {}"
    by (simp add: dev_state_def eval_defs layout_defs)
  from activate_not_found[of "''ghost''" posix_layout registry_state Arg_None] a
  have 1: "activate posix_layout ''ghost'' Arg_None registry_state
     = (Inl (Exit (not_exist_msg ''ghost'') 1), registry_state)" by blast
  from activate_not_found[of "''ghost''" posix_layout "dev_state [] []" Arg_None] c
  have 2: "config_file (snd (activate posix_layout ''base'' Arg_None (dev_state [] [])))
     = Some (Text (Json ''base''))" by blast
  from a b c 1 2 show ?thesis by simp
qed

text \<open>
  C7: reading the pointer raises when the pointer file holds bytes that are not text:
  \<open>json.load\<close> raises \<open>UnicodeDecodeError\<close>, which is neither of the two exceptions
  that the source catches. It also raises when \<open>CONFIG_FILE.exists()\<close>, which stands
  outside the \<open>try\<close>, raises. The specification says the read returns \<open>base\<close> for
  every state of the storage; for a missing, unreadable, blank or unparseable file
  it does (\<open>get_current_env_name_caught\<close>).
\<close>

theorem get_current_env_name_raises:
  "get_current_env_name (registry_state\<lparr>config_file := Some Undecodable\<rparr>) = Inl UnicodeDecodeError \<and>
   get_current_env_name (registry_state\<lparr>config_file := Some Inaccessible\<rparr>) = Inl OSError"
  by (simp add: eval_defs)

text \<open>
  C8: the listing is aborted by a record file that parses to \<open>5\<close> (\<open>'name' not in 5\<close>
  raises \<open>TypeError\<close>), by one that parses to the string \<open>my name\<close> (the test finds
  the substring, then the subscript raises \<open>TypeError\<close>), and by one that holds bytes
  that are not text (\<open>read_text\<close> raises \<open>UnicodeDecodeError\<close>, which is no
  \<open>OSError\<close>). In each run \<open>base\<close> and \<open>dev\<close> are printed and the valid environment
  \<open>ci\<close>, which comes after the file, is not. The specification says that no invalid
  record aborts the enumeration; for unreadable, blank and unparseable files and for
  objects without \<open>name\<close> none does (\<open>list_cmd_registry\<close>).
\<close>

theorem list_cmd_raises:
  "list_cmd posix_layout False
     (dev_ci_state [''/opt/dev/bin''] [''/opt/ci/bin'']
        [(''/envs/five.json'', Text (Json (JNum 5)))] ''/usr/bin'')
     = (Inl TypeError, [Line_base True, Line_env (JStr ''dev'') False]) \<and>
   list_cmd posix_layout False
     (dev_ci_state [''/opt/dev/bin''] [''/opt/ci/bin'']
        [(''/envs/note.json'', Text (Json (JStr ''my name'')))] ''/usr/bin'')
     = (Inl TypeError, [Line_base True, Line_env (JStr ''dev'') False]) \<and>
   list_cmd posix_layout False
     (dev_ci_state [''/opt/dev/bin''] [''/opt/ci/bin'']
        [(''/envs/bytes.json'', Undecodable)] ''/usr/bin'')
     = (Inl UnicodeDecodeError, [Line_base True, Line_env (JStr ''dev'') False])"
  by (simp add: list_cmd_def dev_ci_state_def eval_defs layout_defs)




text \<open>
  C10: for a path that does not exist, the command \<open>addpath\<close> ends with exit code 1 and
  the message that the path does not exist, and leaves the records, the pointer and
  \<open>PATH\<close> as they were. \<open>Env.add_path\<close> itself does not ask whether the path exists:
  it appends any resolved path that is not yet in the list.
\<close>

theorem addpath_missing_path:
  assumes "\<not> exists path"
  shows "addpath L exists resolve path s =
           (Inl (Exit (''Error: Path '' @ quoted path @ '' does not exist'') 1), s) \<and>
         (JStr (resolve path) \<notin> set xs \<longrightarrow>
            add_path L resolve path (e\<lparr>env_paths := JArr xs\<rparr>) s =
              (Inr True, e\<lparr>env_paths := JArr (xs @ [JStr (resolve path)])\<rparr>,
               save L (e\<lparr>env_paths := JArr (xs @ [JStr (resolve path)])\<rparr>) s))"
  using assms by (simp add: addpath_def add_path_def py_in_def Let_def)

theorem addpath_missing_path_witness:
  "\<not> (\<lambda>p. False) ''/no/such/dir'' \<and>
   addpath posix_layout (\<lambda>p. False) (\<lambda>p. p) ''/no/such/dir'' registry_state =
     (Inl (Exit (''Error: Path '' @ quoted ''/no/such/dir'' @ '' does not exist'') 1), registry_state) \<and>
   JStr ''/no/such/dir'' \<notin> set [JStr ''/opt/dev/bin''] \<and>
   fst (add_path posix_layout (\<lambda>p. p) ''/no/such/dir''
          \<lparr>env_name = ''dev'', env_paths = JArr [JStr ''/opt/dev/bin'']\<rparr> registry_state) = Inr True"
proof -
  have h: "\<not> (\<lambda>p::string. False) ''/no/such/dir''" by simp
  from addpath_missing_path[OF h, where resolve = "\<lambda>p. p" and s = registry_state
      and e = "\<lparr>env_name = ''dev'', env_paths = JArr []\<rparr>" and xs = "[JStr ''/opt/dev/bin'']"
      and L = posix_layout]
  show ?thesis by simp
qed

end
